theory Spec2Isabelle
  imports Main
begin

section \<open>The Go library operations the static filter calls\<close>

text \<open>
  The file under verification is \<^verbatim>\<open>filters/builtin/static.go\<close>. It calls into Go's
  standard library (\<^verbatim>\<open>io.Pipe\<close>, \<^verbatim>\<open>strconv.Atoi\<close>, \<^verbatim>\<open>http.Header.Get\<close>, channels). This
  section states the behaviour of those operations as the Go documentation and the
  library sources give it; the sections after it translate \<^verbatim>\<open>static.go\<close> itself.
\<close>

subsection \<open>Errors and the machine integer\<close>

text \<open>
  \<^verbatim>\<open>io.EOF\<close>, \<^verbatim>\<open>io.ErrClosedPipe\<close>, and the two causes of a \<^verbatim>\<open>*strconv.NumError\<close>
  (\<^verbatim>\<open>strconv.ErrSyntax\<close>, \<^verbatim>\<open>strconv.ErrRange\<close>). A Go \<^verbatim>\<open>error\<close> that may be nil is a
  \<open>go_error option\<close>.
\<close>

datatype go_error = EOF | ErrClosedPipe | ErrSyntax | ErrRange

text \<open>
  Go's \<^verbatim>\<open>int\<close> is taken to be 64 bits wide (amd64, arm64): \<open>int64 x\<close> is the value an
  \<^verbatim>\<open>int\<close> holds after an arithmetic result \<open>x\<close> wraps around.
\<close>

definition int64 :: "int \<Rightarrow> int" where
  "int64 x = (x + 2 ^ 63) mod 2 ^ 64 - 2 ^ 63"

subsection \<open>strconv.Atoi\<close>

definition is_digit :: "char \<Rightarrow> bool" where
  "is_digit c = (48 \<le> (of_char c :: nat) \<and> (of_char c :: nat) \<le> 57)"

definition digit :: "char \<Rightarrow> nat" where
  "digit c = of_char c - 48"

text \<open>
  \<^verbatim>\<open>strconv.ParseUint(s, 10, 64)\<close> on a non-empty \<open>s\<close>: the bytes are scanned from the
  left; a byte that is not a decimal digit gives \<^verbatim>\<open>(0, ErrSyntax)\<close>, a value above
  \<open>2^64 - 1\<close> gives \<^verbatim>\<open>(maxUint64, ErrRange)\<close> at the digit where it overflows.
\<close>

fun ParseUint :: "nat \<Rightarrow> string \<Rightarrow> nat \<times> go_error option" where
  "ParseUint n [] = (n, None)"
| "ParseUint n (c # cs) =
     (if \<not> is_digit c then (0, Some ErrSyntax)
      else if n * 10 + digit c > 2 ^ 64 - 1 then (2 ^ 64 - 1, Some ErrRange)
      else ParseUint (n * 10 + digit c) cs)"

text \<open>
  \<^verbatim>\<open>strconv.Atoi(s)\<close>, that is \<^verbatim>\<open>ParseInt(s, 10, 0)\<close>: the empty string and a lone sign
  are syntax errors; one leading \<^verbatim>\<open>+\<close> or \<^verbatim>\<open>-\<close> is picked off; a magnitude that does
  not fit a 64-bit \<^verbatim>\<open>int\<close> gives the nearest bound and \<^verbatim>\<open>ErrRange\<close>.
\<close>

definition Atoi :: "string \<Rightarrow> int \<times> go_error option" where
  "Atoi s =
     (if s = [] then (0, Some ErrSyntax)
      else
        let neg = (hd s = CHR ''-'');
            r = (if hd s = CHR ''+'' \<or> hd s = CHR ''-'' then tl s else s)
        in if r = [] then (0, Some ErrSyntax)
           else
             let (un, e) = ParseUint 0 r
             in if e = Some ErrSyntax then (0, Some ErrSyntax)
                else if \<not> neg \<and> un \<ge> 2 ^ 63 then (2 ^ 63 - 1, Some ErrRange)
                else if neg \<and> un > 2 ^ 63 then (- (2 ^ 63), Some ErrRange)
                else (if neg then - int un else int un, None))"

subsection \<open>http.Header\<close>

text \<open>
  \<^verbatim>\<open>http.Header\<close> is \<^verbatim>\<open>map[string][]string\<close>. \<^verbatim>\<open>Get\<close> returns the first value stored
  under the canonical form of the key, or the empty string. The two keys the code asks
  for, \<^verbatim>\<open>Content-Encoding\<close> and \<^verbatim>\<open>Content-Length\<close>, are their own canonical forms.
\<close>

type_synonym header = "string \<rightharpoonup> string list"

definition Get :: "header \<Rightarrow> string \<Rightarrow> string" where
  "Get h key = (case h key of None \<Rightarrow> [] | Some [] \<Rightarrow> [] | Some (v # _) \<Rightarrow> v)"

subsection \<open>io.Pipe\<close>

text \<open>
  A pipe has no buffer: \<^verbatim>\<open>Write\<close> blocks until readers have taken all of the data or an
  end is closed. One state for both ends:
  \<^item> \<open>werr\<close>: the error the write end was closed with (\<^verbatim>\<open>closeWrite\<close>), if it was;
  \<^item> \<open>rerr\<close>: the error the read end was closed with (\<^verbatim>\<open>closeRead\<close>), if it was;
  \<^item> \<open>delivered\<close>: every byte readers have taken out of the pipe so far, in order.
    This is the body as the consumer has seen it.
\<close>

record pipe =
  werr :: "go_error option"
  rerr :: "go_error option"
  delivered :: string

text \<open>
  \<^verbatim>\<open>PipeWriter.CloseWithError(err)\<close>: a nil error means \<^verbatim>\<open>EOF\<close>; an error stored by an
  earlier close is never overwritten.  \<^verbatim>\<open>PipeWriter.Close()\<close> is \<^verbatim>\<open>CloseWithError(nil)\<close>.
\<close>

definition closeWrite :: "go_error option \<Rightarrow> pipe \<Rightarrow> pipe" where
  "closeWrite err p =
     (case werr p of
        Some _ \<Rightarrow> p
      | None \<Rightarrow> p\<lparr>werr := Some (case err of None \<Rightarrow> EOF | Some e \<Rightarrow> e)\<rparr>)"

text \<open>\<^verbatim>\<open>PipeReader.Close()\<close> is \<^verbatim>\<open>closeRead(nil)\<close>: a nil error means \<^verbatim>\<open>ErrClosedPipe\<close>.\<close>

definition closeRead :: "go_error option \<Rightarrow> pipe \<Rightarrow> pipe" where
  "closeRead err p =
     (case rerr p of
        Some _ \<Rightarrow> p
      | None \<Rightarrow> p\<lparr>rerr := Some (case err of None \<Rightarrow> ErrClosedPipe | Some e \<Rightarrow> e)\<rparr>)"

text \<open>
  What the consumer does while one \<^verbatim>\<open>PipeWriter.Write\<close> is pending decides how that
  call returns:
  \<^item> \<open>Drains\<close>: it keeps reading until the whole of the data has been taken;
  \<^item> \<open>Abandons k\<close>: it takes at most \<open>k\<close> bytes and then, before the write is complete,
    tears the body down with \<^verbatim>\<open>delayedBody.Close\<close> (the only close it has), which
    closes the read end and the write end.
  A consumer that neither reads nor closes leaves the write blocked for ever; such a
  call has no return value and is not described here.
\<close>

datatype consumer = Drains | Abandons nat

text \<open>
  \<^verbatim>\<open>PipeWriter.Write(data)\<close>, returning the pipe, \<^verbatim>\<open>n\<close> and \<^verbatim>\<open>err\<close>. On a pipe with an
  end closed it returns at once with \<^verbatim>\<open>writeCloseError()\<close>: the read end's error when
  only the read end is closed, \<^verbatim>\<open>ErrClosedPipe\<close> otherwise.
\<close>

definition pipe_Write :: "string \<Rightarrow> consumer \<Rightarrow> pipe \<Rightarrow> pipe \<times> int \<times> go_error option" where
  "pipe_Write data c p =
     (if werr p \<noteq> None then (p, 0, Some ErrClosedPipe)
      else if rerr p \<noteq> None then (p, 0, rerr p)
      else
        (case c of
           Drains \<Rightarrow> (p\<lparr>delivered := delivered p @ data\<rparr>, int (length data), None)
         | Abandons k \<Rightarrow>
             (let n = min k (length data - 1)
              in (closeWrite None (closeRead None (p\<lparr>delivered := delivered p @ take n data\<rparr>)),
                  int n, Some ErrClosedPipe))))"

text \<open>
  \<^verbatim>\<open>PipeReader.Read\<close> when no write is pending: on a closed pipe it returns no bytes and
  \<^verbatim>\<open>readCloseError()\<close> (\<^verbatim>\<open>ErrClosedPipe\<close> once the read end is closed, else the write
  end's error); on an open pipe it blocks until a writer arrives, which is \<open>None\<close>.
\<close>

definition pipe_Read :: "pipe \<Rightarrow> (int \<times> go_error) option" where
  "pipe_Read p =
     (if rerr p \<noteq> None then Some (0, ErrClosedPipe)
      else (case werr p of Some e \<Rightarrow> Some (0, e) | None \<Rightarrow> None))"

section \<open>The delayed body\<close>

record http_Request =
  Method :: string
  URL_Path :: string

text \<open>The fields of \<^verbatim>\<open>http.Response\<close> the code assigns while the body is produced.\<close>

record http_Response =
  StatusCode :: int
  Header :: header

text \<open>The effects of the body's methods, as they happen.\<close>

datatype event =
    SetStatus int
  | PipeWrite string int "go_error option"
  | PipeCloseWithError go_error
  | CloseHeaderDone
  | LogError go_error
  | ReaderClose
  | WriterClose

text \<open>
  \<^verbatim>\<open>struct delayedBody\<close>. \<open>reader\<close> and \<open>writer\<close> are the two ends of one pipe, held
  here as its state \<open>pipe\<close>; \<open>headerDone\<close> is \<open>True\<close> once the channel is closed;
  \<open>trace\<close> lists the effects so far, oldest first.
\<close>

record delayedBody =
  request :: http_Request
  path :: string
  response :: http_Response
  pipe :: pipe
  contentLength :: int
  written :: int
  headerDone :: bool
  trace :: "event list"

text \<open>A call either returns or panics (\<^verbatim>\<open>close\<close> of a closed channel panics).\<close>

datatype 'a outcome = Returns 'a | Panics

text \<open>
  The struct literal of \<^verbatim>\<open>newDelayed\<close>: a fresh pipe, an empty header map, an open
  channel, and Go's zero value for every field the literal leaves out.
\<close>

definition new_delayedBody :: "http_Request \<Rightarrow> delayedBody" where
  "new_delayedBody req =
     \<lparr>request = req, path = [],
      response = \<lparr>StatusCode = 0, Header = Map.empty\<rparr>,
      pipe = \<lparr>werr = None, rerr = None, delivered = []\<rparr>,
      contentLength = 0, written = 0, headerDone = False, trace = []\<rparr>"

text \<open>The producer fills the map \<^verbatim>\<open>Header()\<close> returns before it calls \<^verbatim>\<open>WriteHeader\<close>.\<close>

definition set_Header :: "header \<Rightarrow> delayedBody \<Rightarrow> delayedBody" where
  "set_Header h b = b\<lparr>response := (response b)\<lparr>Header := h\<rparr>\<rparr>"

definition log_Error :: "go_error \<Rightarrow> delayedBody \<Rightarrow> delayedBody" where
  "log_Error e b = b\<lparr>trace := trace b @ [LogError e]\<rparr>"

definition writer_Write :: "string \<Rightarrow> consumer \<Rightarrow> delayedBody \<Rightarrow> delayedBody \<times> int \<times> go_error option" where
  "writer_Write data c b =
     (case pipe_Write data c (pipe b) of
        (p, n, err) \<Rightarrow> (b\<lparr>pipe := p, trace := trace b @ [PipeWrite data n err]\<rparr>, n, err))"

definition writer_CloseWithError :: "go_error \<Rightarrow> delayedBody \<Rightarrow> delayedBody" where
  "writer_CloseWithError e b =
     b\<lparr>pipe := closeWrite (Some e) (pipe b), trace := trace b @ [PipeCloseWithError e]\<rparr>"

definition writer_Close :: "delayedBody \<Rightarrow> delayedBody" where
  "writer_Close b = b\<lparr>pipe := closeWrite None (pipe b), trace := trace b @ [WriterClose]\<rparr>"

definition reader_Close :: "delayedBody \<Rightarrow> delayedBody" where
  "reader_Close b = b\<lparr>pipe := closeRead None (pipe b), trace := trace b @ [ReaderClose]\<rparr>"

definition close_headerDone :: "delayedBody \<Rightarrow> delayedBody outcome" where
  "close_headerDone b =
     (if headerDone b then Panics
      else Returns (b\<lparr>headerDone := True, trace := trace b @ [CloseHeaderDone]\<rparr>))"

text \<open>\<^verbatim>\<open>func (b *delayedBody) Read(data []byte) (int, error)\<close>\<close>

definition Read :: "delayedBody \<Rightarrow> (int \<times> go_error) option" where
  "Read b = pipe_Read (pipe b)"

text \<open>
  \<^verbatim>\<open>func (b *delayedBody) Write(data []byte) (int, error)\<close>; \<open>c\<close> is what the consumer
  does while the pipe write is pending.
\<close>

definition Write :: "string \<Rightarrow> consumer \<Rightarrow> delayedBody \<Rightarrow> delayedBody \<times> int \<times> go_error option" where
  "Write data c b =
     (if Method (request b) = ''HEAD'' \<or> StatusCode (response b) \<ge> 300 then (b, 0, None)
      else
        (case writer_Write data c b of
           (b1, n, err) \<Rightarrow>
             if err \<noteq> None then (b1, n, err)
             else if contentLength b1 \<ge> 0 then
               (let b2 = b1\<lparr>written := int64 (written b1 + n)\<rparr>
                in (if written b2 \<ge> contentLength b2 then writer_CloseWithError EOF b2 else b2,
                    n, err))
             else (b1, n, err)))"

text \<open>
  \<^verbatim>\<open>func (b *delayedBody) WriteHeader(status int)\<close>. \<open>statusText\<close> is
  \<^verbatim>\<open>http.StatusText\<close>, the library's table of reason phrases; \<open>c\<close> is what the consumer
  does while the reason phrase is being written.
\<close>

definition WriteHeader :: "(int \<Rightarrow> string) \<Rightarrow> int \<Rightarrow> consumer \<Rightarrow> delayedBody \<Rightarrow> delayedBody outcome" where
  "WriteHeader statusText status c b0 =
     (let b = b0\<lparr>response := (response b0)\<lparr>StatusCode := status\<rparr>,
                 trace := trace b0 @ [SetStatus status]\<rparr>
      in
        if Method (request b) = ''HEAD'' \<or> (status \<ge> 300 \<and> status < 400) then
          close_headerDone (writer_CloseWithError EOF b)
        else if status \<ge> 400 then
          (case close_headerDone b of
             Panics \<Rightarrow> Panics
           | Returns b1 \<Rightarrow>
               (case writer_Write (statusText status) c b1 of
                  (b2, n, err) \<Rightarrow>
                    Returns (writer_CloseWithError EOF
                      (case err of None \<Rightarrow> b2 | Some e \<Rightarrow> log_Error e b2))))
        else if Get (Header (response b)) ''Content-Encoding'' \<noteq> [] then
          close_headerDone (b\<lparr>contentLength := - 1\<rparr>)
        else
          (case Atoi (Get (Header (response b)) ''Content-Length'') of
             (cl, err) \<Rightarrow>
               if cl = 0 \<or> err \<noteq> None then
                 close_headerDone (writer_CloseWithError EOF
                   (case err of
                      None \<Rightarrow> b
                    | Some e \<Rightarrow>
                        if Get (Header (response b)) ''Content-Length'' \<noteq> [] then log_Error e b
                        else b))
               else close_headerDone (b\<lparr>contentLength := cl\<rparr>)))"

text \<open>\<^verbatim>\<open>func (b *delayedBody) Close() error\<close>: both ends are closed, the result is nil.\<close>

definition Close :: "delayedBody \<Rightarrow> delayedBody \<times> go_error option" where
  "Close b = (writer_Close (reader_Close b), None)"

text \<open>
  A run of \<^verbatim>\<open>Write\<close> calls, each with what the consumer does during it; the results
  of the calls are returned in order.
\<close>

fun Writes :: "(string \<times> consumer) list \<Rightarrow> delayedBody \<Rightarrow> delayedBody \<times> (int \<times> go_error option) list" where
  "Writes [] b = (b, [])"
| "Writes ((data, c) # ws) b =
     (case Write data c b of
        (b1, n, err) \<Rightarrow> (case Writes ws b1 of (b2, rs) \<Rightarrow> (b2, (n, err) # rs)))"

section \<open>The static filter\<close>

text \<open>\<^verbatim>\<open>struct static\<close>: the request path prefix and the directory served.\<close>

record static =
  webRoot :: string
  root :: string

text \<open>
  What \<^verbatim>\<open>ctx.Serve\<close> is handed: \<open>Plain n\<close> is \<^verbatim>\<open>&http.Response{StatusCode: n}\<close>, with
  no header and a nil body; \<open>Delayed req p\<close> is the response \<^verbatim>\<open>newDelayed(req, p)\<close>
  returns, whose body is the delayed body fed by \<^verbatim>\<open>http.ServeFile(db, req, p)\<close>.
\<close>

datatype served_Response = Plain int | Delayed http_Request string

text \<open>
  The filter context of one request: the request, what \<^verbatim>\<open>Serve\<close> has recorded, and
  the producers started so far, each \<^verbatim>\<open>go http.ServeFile(db, req, p)\<close> as \<open>(req, p)\<close>.
\<close>

record FilterContext =
  ctx_Request :: http_Request
  ctx_Served :: bool
  ctx_Response :: "served_Response option"
  producers :: "(http_Request \<times> string) list"




section \<open>Example inputs\<close>

text \<open>
  The scenario of the specification: prefix \<^verbatim>\<open>/static/\<close>, root \<^verbatim>\<open>/var/www\<close>, request
  path \<^verbatim>\<open>/static/img/a.png\<close>, a file of ten bytes.
\<close>

definition example_request :: http_Request where
  "example_request = \<lparr>Method = ''GET'', URL_Path = ''/static/img/a.png''\<rparr>"

definition example_static :: static where
  "example_static = \<lparr>webRoot = ''/static/'', root = ''/var/www''\<rparr>"

definition example_context :: "string \<Rightarrow> FilterContext" where
  "example_context p =
     \<lparr>ctx_Request = \<lparr>Method = ''GET'', URL_Path = p\<rparr>, ctx_Served = False,
      ctx_Response = None, producers = []\<rparr>"

text \<open>
  What \<^verbatim>\<open>path.Join\<close> gives for two elements that are clean already, the first
  without a slash at its end and the second without one at its start.
\<close>

definition example_Join :: "string \<Rightarrow> string \<Rightarrow> string" where
  "example_Join dir rest = dir @ ''/'' @ rest"

text \<open>The body when the producer has set \<^verbatim>\<open>Content-Length: 10\<close> and nothing else.\<close>

definition example_body :: delayedBody where
  "example_body = set_Header [''Content-Length'' \<mapsto> [''10'']] (new_delayedBody example_request)"

text \<open>The same body after \<^verbatim>\<open>WriteHeader(200)\<close>.\<close>

definition example_finalized :: delayedBody where
  "example_finalized =
     example_body\<lparr>response := (response example_body)\<lparr>StatusCode := 200\<rparr>,
                  contentLength := 10, headerDone := True,
                  trace := [SetStatus 200, CloseHeaderDone]\<rparr>"

section \<open>Properties of the library operations and of Write\<close>

lemma int64_id: "- (2 ^ 63) \<le> x \<Longrightarrow> x < 2 ^ 63 \<Longrightarrow> int64 x = x"
  by (simp add: int64_def)

lemma Write_noop:
  "Method (request b) = ''HEAD'' \<or> StatusCode (response b) \<ge> 300 \<Longrightarrow> Write data c b = (b, 0, None)"
  by (simp add: Write_def)

lemma Writes_noop:
  "Method (request b) = ''HEAD'' \<or> StatusCode (response b) \<ge> 300 \<Longrightarrow>
   Writes ws b = (b, map (\<lambda>w. (0, None)) ws)"
  by (induction ws) (auto simp: Write_noop)

lemma Write_closed:
  assumes "Method (request b) \<noteq> ''HEAD''" "StatusCode (response b) < 300" "werr (pipe b) \<noteq> None"
  shows "Write data c b = (b\<lparr>trace := trace b @ [PipeWrite data 0 (Some ErrClosedPipe)]\<rparr>, 0, Some ErrClosedPipe)"
  using assms by (simp add: Write_def writer_Write_def pipe_Write_def)

lemma Writes_closed:
  assumes "Method (request b) \<noteq> ''HEAD''" "StatusCode (response b) < 300" "werr (pipe b) \<noteq> None"
  shows "\<exists>b'. Writes ws b = (b', map (\<lambda>w. (0, Some ErrClosedPipe)) ws) \<and> pipe b' = pipe b \<and>
           request b' = request b \<and> response b' = response b \<and>
           contentLength b' = contentLength b \<and> written b' = written b \<and>
           headerDone b' = headerDone b \<and>
           count_list (trace b') (PipeCloseWithError EOF) = count_list (trace b) (PipeCloseWithError EOF)"
  using assms
proof (induction ws arbitrary: b)
  case Nil
  then show ?case by simp
next
  case (Cons w ws)
  obtain data c where w: "w = (data, c)" by (cases w)
  let ?b1 = "b\<lparr>trace := trace b @ [PipeWrite data 0 (Some ErrClosedPipe)]\<rparr>"
  have step: "Write data c b = (?b1, 0, Some ErrClosedPipe)"
    using Cons.prems by (rule Write_closed)
  have "Method (request ?b1) \<noteq> ''HEAD''" "StatusCode (response ?b1) < 300" "werr (pipe ?b1) \<noteq> None"
    using Cons.prems by simp_all
  from Cons.IH [OF this] obtain b' where
    "Writes ws ?b1 = (b', map (\<lambda>w. (0, Some ErrClosedPipe)) ws)" "pipe b' = pipe ?b1"
    "request b' = request ?b1" "response b' = response ?b1" "contentLength b' = contentLength ?b1"
    "written b' = written ?b1" "headerDone b' = headerDone ?b1"
    "count_list (trace b') (PipeCloseWithError EOF) = count_list (trace ?b1) (PipeCloseWithError EOF)"
    by blast
  then show ?case using step w by simp
qed


lemma Write_unknown:
  assumes "Method (request b) \<noteq> ''HEAD''" "StatusCode (response b) < 300" "contentLength b < 0"
  shows "Write data c b =
    (case pipe_Write data c (pipe b) of
       (p, n, err) \<Rightarrow> (b\<lparr>pipe := p, trace := trace b @ [PipeWrite data n err]\<rparr>, n, err))"
  using assms by (auto simp: Write_def writer_Write_def split: prod.splits)

lemma pipe_Write_cases:
  assumes "werr p = None" "rerr p = None"
  shows "pipe_Write data Drains p = (p\<lparr>delivered := delivered p @ data\<rparr>, int (length data), None)"
    and "\<exists>n. pipe_Write data (Abandons k) p =
           (p\<lparr>delivered := delivered p @ take n data, werr := Some EOF, rerr := Some ErrClosedPipe\<rparr>,
            int n, Some ErrClosedPipe)"
  using assms by (simp_all add: pipe_Write_def closeWrite_def closeRead_def Let_def)

lemma Writes_unknown:
  assumes "Writes ws b = (b', rs)"
    and "Method (request b) \<noteq> ''HEAD''" "StatusCode (response b) < 300" "contentLength b < 0"
  shows "contentLength b' = contentLength b \<and> request b' = request b \<and> response b' = response b \<and>
         headerDone b' = headerDone b \<and> written b' = written b \<and>
         count_list (trace b') (PipeCloseWithError EOF) = count_list (trace b) (PipeCloseWithError EOF)"
  using assms
proof (induction ws arbitrary: b b' rs)
  case Nil
  then show ?case by simp
next
  case (Cons w ws)
  obtain data c where w: "w = (data, c)" by (cases w)
  obtain p n err where pw: "pipe_Write data c (pipe b) = (p, n, err)" by (cases "pipe_Write data c (pipe b)")
  let ?b1 = "b\<lparr>pipe := p, trace := trace b @ [PipeWrite data n err]\<rparr>"
  have step: "Write data c b = (?b1, n, err)"
    using Write_unknown [OF Cons.prems(2-4)] pw by simp
  obtain b2 rs2 where rest: "Writes ws ?b1 = (b2, rs2)" by (cases "Writes ws ?b1")
  have b2: "b' = b2" using Cons.prems(1) w step rest by simp
  have "Method (request ?b1) \<noteq> ''HEAD''" "StatusCode (response ?b1) < 300" "contentLength ?b1 < 0"
    using Cons.prems by simp_all
  from Cons.IH [OF rest this] show ?case using b2 by simp
qed

lemma Writes_unknown_drained:
  assumes "Writes ws b = (b', rs)"
    and "Method (request b) \<noteq> ''HEAD''" "StatusCode (response b) < 300" "contentLength b < 0"
    and "werr (pipe b) = None" "rerr (pipe b) = None"
    and "list_all (\<lambda>w. snd w = Drains) ws"
  shows "pipe b' = (pipe b)\<lparr>delivered := delivered (pipe b) @ concat (map fst ws)\<rparr> \<and>
         rs = map (\<lambda>w. (int (length (fst w)), None)) ws"
  using assms
proof (induction ws arbitrary: b b' rs)
  case Nil
  then show ?case by simp
next
  case (Cons w ws)
  obtain data where w: "w = (data, Drains)" using Cons.prems(7) by (cases w) simp
  let ?p = "(pipe b)\<lparr>delivered := delivered (pipe b) @ data\<rparr>"
  let ?b1 = "b\<lparr>pipe := ?p, trace := trace b @ [PipeWrite data (int (length data)) None]\<rparr>"
  have step: "Write data Drains b = (?b1, int (length data), None)"
    using Write_unknown [OF Cons.prems(2-4)] pipe_Write_cases(1) [OF Cons.prems(5,6)] by simp
  obtain b2 rs2 where rest: "Writes ws ?b1 = (b2, rs2)" by (cases "Writes ws ?b1")
  have res: "b' = b2" "rs = (int (length data), None) # rs2"
    using Cons.prems(1) w step rest by simp_all
  have "Method (request ?b1) \<noteq> ''HEAD''" "StatusCode (response ?b1) < 300" "contentLength ?b1 < 0"
    "werr (pipe ?b1) = None" "rerr (pipe ?b1) = None" "list_all (\<lambda>w. snd w = Drains) ws"
    using Cons.prems by simp_all
  from Cons.IH [OF rest this] show ?case using res w by simp
qed

lemma Writes_unknown_abandoned:
  assumes "Writes ws b = (b', rs)"
    and "Method (request b) \<noteq> ''HEAD''" "StatusCode (response b) < 300" "contentLength b < 0"
    and "werr (pipe b) = None" "rerr (pipe b) = None"
    and "\<not> list_all (\<lambda>w. snd w = Drains) ws"
  shows "werr (pipe b') = Some EOF \<and> rerr (pipe b') = Some ErrClosedPipe"
  using assms
proof (induction ws arbitrary: b b' rs)
  case Nil
  then show ?case by simp
next
  case (Cons w ws)
  obtain data c where w: "w = (data, c)" by (cases w)
  show ?case
  proof (cases c)
    case Drains
    let ?p = "(pipe b)\<lparr>delivered := delivered (pipe b) @ data\<rparr>"
    let ?b1 = "b\<lparr>pipe := ?p, trace := trace b @ [PipeWrite data (int (length data)) None]\<rparr>"
    have step: "Write data c b = (?b1, int (length data), None)"
      using Write_unknown [OF Cons.prems(2-4)] pipe_Write_cases(1) [OF Cons.prems(5,6)] Drains by simp
    obtain b2 rs2 where rest: "Writes ws ?b1 = (b2, rs2)" by (cases "Writes ws ?b1")
    have res: "b' = b2" using Cons.prems(1) w step rest by simp
    have "Method (request ?b1) \<noteq> ''HEAD''" "StatusCode (response ?b1) < 300" "contentLength ?b1 < 0"
      "werr (pipe ?b1) = None" "rerr (pipe ?b1) = None" "\<not> list_all (\<lambda>w. snd w = Drains) ws"
      using Cons.prems w Drains by simp_all
    from Cons.IH [OF rest this] show ?thesis using res by simp
  next
    case (Abandons k)
    obtain n where pw: "pipe_Write data (Abandons k) (pipe b) =
        ((pipe b)\<lparr>delivered := delivered (pipe b) @ take n data, werr := Some EOF, rerr := Some ErrClosedPipe\<rparr>,
         int n, Some ErrClosedPipe)"
      using pipe_Write_cases(2) [OF Cons.prems(5,6)] by blast
    let ?p = "(pipe b)\<lparr>delivered := delivered (pipe b) @ take n data, werr := Some EOF, rerr := Some ErrClosedPipe\<rparr>"
    let ?b1 = "b\<lparr>pipe := ?p, trace := trace b @ [PipeWrite data (int n) (Some ErrClosedPipe)]\<rparr>"
    have step: "Write data c b = (?b1, int n, Some ErrClosedPipe)"
      using Write_unknown [OF Cons.prems(2-4)] pw Abandons by simp
    obtain b2 rs2 where rest: "Writes ws ?b1 = (b2, rs2)" by (cases "Writes ws ?b1")
    have res: "b' = b2" using Cons.prems(1) w step rest by simp
    have "Method (request ?b1) \<noteq> ''HEAD''" "StatusCode (response ?b1) < 300" "werr (pipe ?b1) \<noteq> None"
      using Cons.prems by simp_all
    from Writes_closed [OF this, of ws] rest have "pipe b2 = ?p" by auto
    then show ?thesis using res by simp
  qed
qed

lemma Atoi_empty: "Atoi [] = (0, Some ErrSyntax)"
  by (simp add: Atoi_def)

lemma unknown_length_Writes:
  assumes "Method (request b) \<noteq> ''HEAD''" "StatusCode (response b) < 300" "contentLength b < 0"
    and "werr (pipe b) = None" "rerr (pipe b) = None"
  shows "contentLength (fst (Writes ws b)) = contentLength b \<and>
         count_list (trace (fst (Writes ws b))) (PipeCloseWithError EOF) =
           count_list (trace b) (PipeCloseWithError EOF) \<and>
         (werr (pipe (fst (Writes ws b))) = None) = list_all (\<lambda>w. snd w = Drains) ws \<and>
         (Read (fst (Writes ws b)) = None) = list_all (\<lambda>w. snd w = Drains) ws \<and>
         (list_all (\<lambda>w. snd w = Drains) ws \<longrightarrow>
            delivered (pipe (fst (Writes ws b))) = delivered (pipe b) @ concat (map fst ws))"
proof -
  obtain b2 rs where w: "Writes ws b = (b2, rs)" by (cases "Writes ws b")
  have a: "contentLength b2 = contentLength b \<and>
      count_list (trace b2) (PipeCloseWithError EOF) = count_list (trace b) (PipeCloseWithError EOF)"
    using Writes_unknown [OF w assms(1-3)] by simp
  have b: "(werr (pipe b2) = None) = list_all (\<lambda>w. snd w = Drains) ws \<and>
           (Read b2 = None) = list_all (\<lambda>w. snd w = Drains) ws \<and>
           (list_all (\<lambda>w. snd w = Drains) ws \<longrightarrow>
            delivered (pipe b2) = delivered (pipe b) @ concat (map fst ws))"
  proof (cases "list_all (\<lambda>w. snd w = Drains) ws")
    case True
    from Writes_unknown_drained [OF w assms True] show ?thesis
      using True assms(4,5) by (simp add: Read_def pipe_Read_def)
  next
    case False
    from Writes_unknown_abandoned [OF w assms False] show ?thesis
      using False by (simp add: Read_def pipe_Read_def)
  qed
  show ?thesis using a b w by simp
qed

lemma Write_known_drain:
  assumes "Method (request b) \<noteq> ''HEAD''" "StatusCode (response b) < 300"
    and "werr (pipe b) = None" "rerr (pipe b) = None"
    and "0 \<le> contentLength b" "0 \<le> written b" "written b + int (length data) < 2 ^ 63"
  shows "Write data Drains b =
    (if contentLength b \<le> written b + int (length data)
     then b\<lparr>pipe := (pipe b)\<lparr>delivered := delivered (pipe b) @ data, werr := Some EOF\<rparr>,
            written := written b + int (length data),
            trace := trace b @ [PipeWrite data (int (length data)) None, PipeCloseWithError EOF]\<rparr>
     else b\<lparr>pipe := (pipe b)\<lparr>delivered := delivered (pipe b) @ data\<rparr>,
            written := written b + int (length data),
            trace := trace b @ [PipeWrite data (int (length data)) None]\<rparr>,
     int (length data), None)"
proof -
  have "int64 (written b + int (length data)) = written b + int (length data)"
    using assms(6,7) by (intro int64_id) auto
  then show ?thesis
    using assms(1-5)
    by (simp add: Write_def writer_Write_def pipe_Write_def writer_CloseWithError_def
        closeWrite_def Let_def)
qed

lemma Writes_below:
  assumes "Writes (map (\<lambda>d. (d, Drains)) ds) b = (b', rs)"
    and "Method (request b) \<noteq> ''HEAD''" "StatusCode (response b) < 300"
    and "werr (pipe b) = None" "rerr (pipe b) = None"
    and "0 \<le> written b"
    and "written b + int (length (concat ds)) < contentLength b"
    and "written b + int (length (concat ds)) < 2 ^ 63"
  shows "pipe b' = (pipe b)\<lparr>delivered := delivered (pipe b) @ concat ds\<rparr> \<and>
         rs = map (\<lambda>d. (int (length d), None)) ds"
  using assms
proof (induction ds arbitrary: b b' rs)
  case Nil
  then show ?case by simp
next
  case (Cons d ds)
  let ?b1 = "b\<lparr>pipe := (pipe b)\<lparr>delivered := delivered (pipe b) @ d\<rparr>,
       written := written b + int (length d),
       trace := trace b @ [PipeWrite d (int (length d)) None]\<rparr>"
  have below: "\<not> contentLength b \<le> written b + int (length d)"
    using Cons.prems(7) by simp
  have "Write d Drains b = (?b1, int (length d), None)"
    using Write_known_drain [OF Cons.prems(2-5), of d] Cons.prems(6-8) below by simp
  moreover obtain b2 rs2 where rest: "Writes (map (\<lambda>d. (d, Drains)) ds) ?b1 = (b2, rs2)"
    by (cases "Writes (map (\<lambda>d. (d, Drains)) ds) ?b1")
  ultimately have res: "b' = b2" "rs = (int (length d), None) # rs2"
    using Cons.prems(1) by simp_all
  have "Method (request ?b1) \<noteq> ''HEAD''" "StatusCode (response ?b1) < 300"
    "werr (pipe ?b1) = None" "rerr (pipe ?b1) = None" "0 \<le> written ?b1"
    "written ?b1 + int (length (concat ds)) < contentLength ?b1"
    "written ?b1 + int (length (concat ds)) < 2 ^ 63"
    using Cons.prems by simp_all
  from Cons.IH [OF rest this] show ?case using res by simp
qed

lemma Writes_reach:
  assumes "Writes (map (\<lambda>d. (d, Drains)) ds) b = (b', rs)"
    and "Method (request b) \<noteq> ''HEAD''" "StatusCode (response b) < 300"
    and "werr (pipe b) = None" "rerr (pipe b) = None"
    and "0 \<le> written b" "written b < contentLength b"
    and "contentLength b \<le> written b + int (length (concat ds))"
    and "written b + int (length (concat ds)) < 2 ^ 63"
  shows "\<exists>k<length ds.
           written b + int (length (concat (take k ds))) < contentLength b \<and>
           contentLength b \<le> written b + int (length (concat (take (Suc k) ds))) \<and>
           pipe b' = (pipe b)\<lparr>delivered := delivered (pipe b) @ concat (take (Suc k) ds),
                                werr := Some EOF\<rparr> \<and>
           rs = map (\<lambda>d. (int (length d), None)) (take (Suc k) ds) @
                map (\<lambda>d. (0, Some ErrClosedPipe)) (drop (Suc k) ds)"
  using assms
proof (induction ds arbitrary: b b' rs)
  case Nil
  then show ?case by simp
next
  case (Cons d ds)
  have cl0: "0 \<le> contentLength b" using Cons.prems(6,7) by simp
  have len: "written b + int (length d) < 2 ^ 63" using Cons.prems(9) by simp
  note step = Write_known_drain [OF Cons.prems(2-5) cl0 Cons.prems(6) len]
  show ?case
  proof (cases "contentLength b \<le> written b + int (length d)")
    case True
    let ?b1 = "b\<lparr>pipe := (pipe b)\<lparr>delivered := delivered (pipe b) @ d, werr := Some EOF\<rparr>,
            written := written b + int (length d),
            trace := trace b @ [PipeWrite d (int (length d)) None, PipeCloseWithError EOF]\<rparr>"
    have w: "Write d Drains b = (?b1, int (length d), None)" using step True by simp
    obtain b2 rs2 where rest: "Writes (map (\<lambda>d. (d, Drains)) ds) ?b1 = (b2, rs2)"
      by (cases "Writes (map (\<lambda>d. (d, Drains)) ds) ?b1")
    have res: "b' = b2" "rs = (int (length d), None) # rs2"
      using Cons.prems(1) w rest by simp_all
    have "Method (request ?b1) \<noteq> ''HEAD''" "StatusCode (response ?b1) < 300" "werr (pipe ?b1) \<noteq> None"
      using Cons.prems by simp_all
    from Writes_closed [OF this, of "map (\<lambda>d. (d, Drains)) ds"] rest
    have "pipe b2 = pipe ?b1" "rs2 = map (\<lambda>d. (0, Some ErrClosedPipe)) ds"
      by (auto simp: comp_def)
    then have "written b + int (length (concat (take 0 (d # ds)))) < contentLength b \<and>
           contentLength b \<le> written b + int (length (concat (take (Suc 0) (d # ds)))) \<and>
           pipe b' = (pipe b)\<lparr>delivered := delivered (pipe b) @ concat (take (Suc 0) (d # ds)),
                                werr := Some EOF\<rparr> \<and>
           rs = map (\<lambda>d. (int (length d), None)) (take (Suc 0) (d # ds)) @
                map (\<lambda>d. (0, Some ErrClosedPipe)) (drop (Suc 0) (d # ds))"
      using res True Cons.prems(7) by simp
    then show ?thesis by blast
  next
    case False
    let ?b1 = "b\<lparr>pipe := (pipe b)\<lparr>delivered := delivered (pipe b) @ d\<rparr>,
            written := written b + int (length d),
            trace := trace b @ [PipeWrite d (int (length d)) None]\<rparr>"
    have w: "Write d Drains b = (?b1, int (length d), None)" using step False by simp
    obtain b2 rs2 where rest: "Writes (map (\<lambda>d. (d, Drains)) ds) ?b1 = (b2, rs2)"
      by (cases "Writes (map (\<lambda>d. (d, Drains)) ds) ?b1")
    have res: "b' = b2" "rs = (int (length d), None) # rs2"
      using Cons.prems(1) w rest by simp_all
    have "Method (request ?b1) \<noteq> ''HEAD''" "StatusCode (response ?b1) < 300"
      "werr (pipe ?b1) = None" "rerr (pipe ?b1) = None" "0 \<le> written ?b1"
      "written ?b1 < contentLength ?b1"
      "contentLength ?b1 \<le> written ?b1 + int (length (concat ds))"
      "written ?b1 + int (length (concat ds)) < 2 ^ 63"
      using Cons.prems False by simp_all
    from Cons.IH [OF rest this] obtain k where k: "k < length ds"
      "written ?b1 + int (length (concat (take k ds))) < contentLength ?b1"
      "contentLength ?b1 \<le> written ?b1 + int (length (concat (take (Suc k) ds)))"
      "pipe b2 = (pipe ?b1)\<lparr>delivered := delivered (pipe ?b1) @ concat (take (Suc k) ds),
                                werr := Some EOF\<rparr>"
      "rs2 = map (\<lambda>d. (int (length d), None)) (take (Suc k) ds) @
                map (\<lambda>d. (0, Some ErrClosedPipe)) (drop (Suc k) ds)"
      by blast
    have "Suc k < length (d # ds) \<and>
           written b + int (length (concat (take (Suc k) (d # ds)))) < contentLength b \<and>
           contentLength b \<le> written b + int (length (concat (take (Suc (Suc k)) (d # ds)))) \<and>
           pipe b' = (pipe b)\<lparr>delivered := delivered (pipe b) @ concat (take (Suc (Suc k)) (d # ds)),
                                werr := Some EOF\<rparr> \<and>
           rs = map (\<lambda>d. (int (length d), None)) (take (Suc (Suc k)) (d # ds)) @
                map (\<lambda>d. (0, Some ErrClosedPipe)) (drop (Suc (Suc k)) (d # ds))"
      using k res by simp
    then show ?thesis by blast
  qed
qed

lemmas header_defs = WriteHeader_def close_headerDone_def writer_CloseWithError_def
  writer_Write_def log_Error_def closeWrite_def Read_def pipe_Read_def

lemmas example_defs = example_request_def example_static_def example_context_def
  example_Join_def example_body_def example_finalized_def set_Header_def new_delayedBody_def

lemmas run_defs = header_defs example_defs Write_def pipe_Write_def closeRead_def int64_def
  Get_def Atoi_def is_digit_def digit_def Close_def writer_Close_def reader_Close_def

text \<open>
  \<^verbatim>\<open>headerDone\<close> is closed by \<^verbatim>\<open>WriteHeader\<close> alone, so a second call finds it closed
  and panics in \<^verbatim>\<open>close\<close>: the claims about \<^verbatim>\<open>WriteHeader\<close> are about the one call
  that finds the channel open.
\<close>

lemma WriteHeader_twice_panics:
  "headerDone b \<Longrightarrow> WriteHeader statusText status c b = Panics"
  by (auto simp: header_defs Let_def split: prod.splits option.splits)

section \<open>The claims\<close>

subsection \<open>C1: a known length closes the stream after the write that reaches it\<close>

text \<open>
  C1, as amended. The producer has set a \<^verbatim>\<open>Content-Length\<close> that parses to a positive
  \<open>L\<close> and no \<^verbatim>\<open>Content-Encoding\<close>; the request is not HEAD and the status is below
  300; the consumer drains every write; the writes \<open>ds\<close> hold fewer than \<open>2^63\<close> bytes
  in all. Then \<^verbatim>\<open>WriteHeader\<close> sets \<open>contentLength = L\<close> and leaves the pipe open, and
  \<^item> while the bytes written stay below \<open>L\<close> every write is forwarded whole and the
    stream does not end (a read blocks);
  \<^item> otherwise there is a first write \<open>k\<close> at whose end the running total reaches or
    passes \<open>L\<close>: the body the consumer reads before \<^verbatim>\<open>EOF\<close> is the whole of the
    writes up to and including that one (so at least \<open>L\<close> bytes, and exactly \<open>L\<close> only
    when that write ends on the threshold), and every later write returns
    \<^verbatim>\<open>(0, ErrClosedPipe)\<close> and forwards nothing.
\<close>

theorem Write_closes_after_reaching_length:
  assumes "Method (request b) \<noteq> ''HEAD''" and "status < 300"
    and "Get (Header (response b)) ''Content-Encoding'' = []"
    and "Atoi (Get (Header (response b)) ''Content-Length'') = (L, None)" and "0 < L"
    and "\<not> headerDone b"
    and "pipe b = \<lparr>werr = None, rerr = None, delivered = []\<rparr>" and "written b = 0"
    and "int (length (concat ds)) < 2 ^ 63"
  shows "\<exists>b1 b2 rs.
           WriteHeader statusText status c b = Returns b1 \<and>
           contentLength b1 = L \<and> pipe b1 = pipe b \<and>
           Writes (map (\<lambda>d. (d, Drains)) ds) b1 = (b2, rs) \<and>
           (if int (length (concat ds)) < L
            then delivered (pipe b2) = concat ds \<and> Read b2 = None \<and>
                 rs = map (\<lambda>d. (int (length d), None)) ds
            else \<exists>k<length ds.
                   int (length (concat (take k ds))) < L \<and>
                   L \<le> int (length (concat (take (Suc k) ds))) \<and>
                   delivered (pipe b2) = concat (take (Suc k) ds) \<and>
                   Read b2 = Some (0, EOF) \<and>
                   rs = map (\<lambda>d. (int (length d), None)) (take (Suc k) ds) @
                        map (\<lambda>d. (0, Some ErrClosedPipe)) (drop (Suc k) ds))"
proof -
  let ?b1 = "b\<lparr>response := (response b)\<lparr>StatusCode := status\<rparr>,
               contentLength := L, headerDone := True,
               trace := trace b @ [SetStatus status, CloseHeaderDone]\<rparr>"
  have wh: "WriteHeader statusText status c b = Returns ?b1"
    using assms(1-6) by (auto simp: header_defs)
  obtain b2 rs where w: "Writes (map (\<lambda>d. (d, Drains)) ds) ?b1 = (b2, rs)"
    by (cases "Writes (map (\<lambda>d. (d, Drains)) ds) ?b1")
  have pre: "Method (request ?b1) \<noteq> ''HEAD''" "StatusCode (response ?b1) < 300"
    "werr (pipe ?b1) = None" "rerr (pipe ?b1) = None" "0 \<le> written ?b1"
    using assms by simp_all
  have tail: "if int (length (concat ds)) < L
            then delivered (pipe b2) = concat ds \<and> Read b2 = None \<and>
                 rs = map (\<lambda>d. (int (length d), None)) ds
            else \<exists>k<length ds.
                   int (length (concat (take k ds))) < L \<and>
                   L \<le> int (length (concat (take (Suc k) ds))) \<and>
                   delivered (pipe b2) = concat (take (Suc k) ds) \<and>
                   Read b2 = Some (0, EOF) \<and>
                   rs = map (\<lambda>d. (int (length d), None)) (take (Suc k) ds) @
                        map (\<lambda>d. (0, Some ErrClosedPipe)) (drop (Suc k) ds)"
  proof (cases "int (length (concat ds)) < L")
    case True
    have "written ?b1 + int (length (concat ds)) < contentLength ?b1"
      "written ?b1 + int (length (concat ds)) < 2 ^ 63"
      using True assms(8,9) by simp_all
    from Writes_below [OF w pre this] show ?thesis
      using True assms(7) by (simp add: Read_def pipe_Read_def)
  next
    case False
    have "written ?b1 < contentLength ?b1"
      "contentLength ?b1 \<le> written ?b1 + int (length (concat ds))"
      "written ?b1 + int (length (concat ds)) < 2 ^ 63"
      using False assms(5,8,9) by simp_all
    from Writes_reach [OF w pre this] obtain k where "k < length ds"
      "written ?b1 + int (length (concat (take k ds))) < contentLength ?b1"
      "contentLength ?b1 \<le> written ?b1 + int (length (concat (take (Suc k) ds)))"
      "pipe b2 = (pipe ?b1)\<lparr>delivered := delivered (pipe ?b1) @ concat (take (Suc k) ds),
                                werr := Some EOF\<rparr>"
      "rs = map (\<lambda>d. (int (length d), None)) (take (Suc k) ds) @
                map (\<lambda>d. (0, Some ErrClosedPipe)) (drop (Suc k) ds)"
      by blast
    then have "k < length ds \<and> int (length (concat (take k ds))) < L \<and>
                   L \<le> int (length (concat (take (Suc k) ds))) \<and>
                   delivered (pipe b2) = concat (take (Suc k) ds) \<and>
                   Read b2 = Some (0, EOF) \<and>
                   rs = map (\<lambda>d. (int (length d), None)) (take (Suc k) ds) @
                        map (\<lambda>d. (0, Some ErrClosedPipe)) (drop (Suc k) ds)"
      using assms(7,8) by (simp add: Read_def pipe_Read_def)
    then show ?thesis using False by auto
  qed
  show ?thesis using wh w tail by (intro exI [of _ ?b1] exI [of _ b2] exI [of _ rs]) simp
qed

text \<open>
  The specification's scenario, written in two chunks of five bytes and one more byte:
  the body is the ten bytes, then \<^verbatim>\<open>EOF\<close>; the third write fails.
\<close>

theorem Write_closes_after_reaching_length_witness:
  "Method (request example_body) \<noteq> ''HEAD'' \<and> (200::int) < 300 \<and>
   Get (Header (response example_body)) ''Content-Encoding'' = [] \<and>
   Atoi (Get (Header (response example_body)) ''Content-Length'') = (10, None) \<and> (0::int) < 10 \<and>
   \<not> headerDone example_body \<and>
   pipe example_body = \<lparr>werr = None, rerr = None, delivered = []\<rparr> \<and>
   written example_body = 0 \<and>
   int (length (concat [''01234'', ''56789'', ''x''])) < 2 ^ 63 \<and>
   (\<exists>b1 b2. WriteHeader (\<lambda>s. []) 200 Drains example_body = Returns b1 \<and> contentLength b1 = 10 \<and>
      Writes [(''01234'', Drains), (''56789'', Drains), (''x'', Drains)] b1 =
        (b2, [(5, None), (5, None), (0, Some ErrClosedPipe)]) \<and>
      delivered (pipe b2) = ''0123456789'' \<and> Read b2 = Some (0, EOF))"
  using Write_closes_after_reaching_length
    [of example_body 200 10 "[''01234'', ''56789'', ''x'']" "\<lambda>s. []" Drains]
  by (simp add: run_defs)

text \<open>
  C1 as stated fails: with \<^verbatim>\<open>Content-Length: 10\<close>, one write of fifteen bytes is
  forwarded whole before the pipe is closed, so fifteen bytes are read before \<^verbatim>\<open>EOF\<close>.
\<close>

theorem overlong_Write_is_forwarded_whole:
  "WriteHeader (\<lambda>s. []) 200 Drains example_body = Returns example_finalized \<and>
   contentLength example_finalized = 10 \<and>
   Write ''0123456789abcde'' Drains example_finalized =
     (fst (Write ''0123456789abcde'' Drains example_finalized), 15, None) \<and>
   delivered (pipe (fst (Write ''0123456789abcde'' Drains example_finalized))) = ''0123456789abcde'' \<and>
   length (delivered (pipe (fst (Write ''0123456789abcde'' Drains example_finalized)))) = 15 \<and>
   Read (fst (Write ''0123456789abcde'' Drains example_finalized)) = Some (0, EOF)"
  by (simp add: run_defs)

subsection \<open>C2: HEAD and redirection responses have no body\<close>

text \<open>
  C2. When the request method is HEAD, or the status is in \<open>[300, 400)\<close>, the one
  \<^verbatim>\<open>WriteHeader\<close> call on a body whose pipe is still fresh assigns the status, closes
  the pipe's write end with \<^verbatim>\<open>EOF\<close> and only then closes \<^verbatim>\<open>headerDone\<close>. Every later
  \<^verbatim>\<open>Write\<close> returns \<^verbatim>\<open>(0, nil)\<close> and changes nothing, whatever the data and the consumer,
  so the body read is empty and a read returns \<^verbatim>\<open>EOF\<close>.
\<close>

theorem WriteHeader_HEAD_or_redirect_empty_body:
  assumes "Method (request b) = ''HEAD'' \<or> (300 \<le> status \<and> status < 400)"
    and "\<not> headerDone b"
    and "pipe b = \<lparr>werr = None, rerr = None, delivered = []\<rparr>"
  shows "\<exists>b'. WriteHeader statusText status c b = Returns b' \<and>
           trace b' = trace b @ [SetStatus status, PipeCloseWithError EOF, CloseHeaderDone] \<and>
           headerDone b' \<and>
           pipe b' = \<lparr>werr = Some EOF, rerr = None, delivered = []\<rparr> \<and>
           Read b' = Some (0, EOF) \<and>
           (\<forall>ws. Writes ws b' = (b', map (\<lambda>w. (0, None)) ws))"
proof -
  let ?b' = "b\<lparr>response := (response b)\<lparr>StatusCode := status\<rparr>,
               pipe := \<lparr>werr = Some EOF, rerr = None, delivered = []\<rparr>,
               headerDone := True,
               trace := trace b @ [SetStatus status, PipeCloseWithError EOF, CloseHeaderDone]\<rparr>"
  have wh: "WriteHeader statusText status c b = Returns ?b'"
    using assms by (auto simp: header_defs)
  have "Method (request ?b') = ''HEAD'' \<or> StatusCode (response ?b') \<ge> 300"
    using assms(1) by auto
  then have "\<forall>ws. Writes ws ?b' = (?b', map (\<lambda>w. (0, None)) ws)"
    by (simp add: Writes_noop)
  then show ?thesis using wh by (simp add: Read_def pipe_Read_def)
qed

theorem WriteHeader_HEAD_or_redirect_empty_body_witness:
  "(Method (request example_body) = ''HEAD'' \<or> ((300::int) \<le> 304 \<and> (304::int) < 400)) \<and>
   \<not> headerDone example_body \<and>
   pipe example_body = \<lparr>werr = None, rerr = None, delivered = []\<rparr> \<and>
   (\<exists>b'. WriteHeader (\<lambda>s. []) 304 Drains example_body = Returns b' \<and>
      trace b' = [SetStatus 304, PipeCloseWithError EOF, CloseHeaderDone] \<and>
      pipe b' = \<lparr>werr = Some EOF, rerr = None, delivered = []\<rparr> \<and>
      Read b' = Some (0, EOF) \<and>
      Writes [(''0123456789'', Drains), (''x'', Abandons 0)] b' = (b', [(0, None), (0, None)]))"
  using WriteHeader_HEAD_or_redirect_empty_body [of example_body 304 "\<lambda>s. []" Drains]
  by (simp add: run_defs)

subsection \<open>C3: an error status sends its reason phrase\<close>



subsection \<open>C4: with a Content-Encoding no write closes the pipe\<close>

text \<open>
  C4. When the request is not HEAD, the status is below 300 and the
  \<^verbatim>\<open>Content-Encoding\<close> header is not empty, the one \<^verbatim>\<open>WriteHeader\<close> call on a body with
  an open pipe assigns the status, sets \<open>contentLength\<close> to \<open>-1\<close> and closes
  \<^verbatim>\<open>headerDone\<close>; it does not touch the pipe. After any run of \<^verbatim>\<open>Write\<close> calls
  \<open>contentLength\<close> is still \<open>-1\<close>, no write has called \<^verbatim>\<open>CloseWithError\<close>, and the
  pipe's write end is open, with a read still blocking, exactly when no consumer tore
  the body down.
\<close>

theorem WriteHeader_content_encoding_never_auto_closes:
  assumes "Method (request b) \<noteq> ''HEAD''" and "status < 300"
    and "Get (Header (response b)) ''Content-Encoding'' \<noteq> []"
    and "\<not> headerDone b"
    and "werr (pipe b) = None" and "rerr (pipe b) = None"
  shows "\<exists>b'. WriteHeader statusText status c b = Returns b' \<and>
           contentLength b' = - 1 \<and>
           trace b' = trace b @ [SetStatus status, CloseHeaderDone] \<and>
           headerDone b' \<and> pipe b' = pipe b \<and>
           (\<forall>ws. contentLength (fst (Writes ws b')) = - 1 \<and>
                 count_list (trace (fst (Writes ws b'))) (PipeCloseWithError EOF) =
                   count_list (trace b') (PipeCloseWithError EOF) \<and>
                 (werr (pipe (fst (Writes ws b'))) = None) = list_all (\<lambda>w. snd w = Drains) ws \<and>
                 (Read (fst (Writes ws b')) = None) = list_all (\<lambda>w. snd w = Drains) ws)"
proof -
  let ?b' = "b\<lparr>response := (response b)\<lparr>StatusCode := status\<rparr>,
               contentLength := - 1, headerDone := True,
               trace := trace b @ [SetStatus status, CloseHeaderDone]\<rparr>"
  have wh: "WriteHeader statusText status c b = Returns ?b'"
    using assms(1-4) by (auto simp: header_defs)
  have pre: "Method (request ?b') \<noteq> ''HEAD''" "StatusCode (response ?b') < 300" "contentLength ?b' < 0"
    "werr (pipe ?b') = None" "rerr (pipe ?b') = None"
    using assms by simp_all
  show ?thesis using wh unknown_length_Writes [OF pre] by simp
qed

text \<open>
  A gzip response of declared length 10: twelve bytes pass and the stream does not
  end.
\<close>

theorem WriteHeader_content_encoding_never_auto_closes_witness:
  "Method (request (set_Header [''Content-Encoding'' \<mapsto> [''gzip''], ''Content-Length'' \<mapsto> [''10'']]
      (new_delayedBody example_request))) \<noteq> ''HEAD'' \<and> (200::int) < 300 \<and>
   Get (Header (response (set_Header [''Content-Encoding'' \<mapsto> [''gzip''], ''Content-Length'' \<mapsto> [''10'']]
      (new_delayedBody example_request)))) ''Content-Encoding'' = ''gzip'' \<and>
   (\<exists>b'. WriteHeader (\<lambda>s. []) 200 Drains
        (set_Header [''Content-Encoding'' \<mapsto> [''gzip''], ''Content-Length'' \<mapsto> [''10'']]
          (new_delayedBody example_request)) = Returns b' \<and>
      contentLength b' = - 1 \<and> trace b' = [SetStatus 200, CloseHeaderDone] \<and>
      pipe b' = \<lparr>werr = None, rerr = None, delivered = []\<rparr> \<and>
      count_list (trace (fst (Writes [(''0123456789'', Drains), (''ab'', Drains)] b')))
        (PipeCloseWithError EOF) = 0 \<and>
      werr (pipe (fst (Writes [(''0123456789'', Drains), (''ab'', Drains)] b'))) = None \<and>
      delivered (pipe (fst (Writes [(''0123456789'', Drains), (''ab'', Drains)] b'))) = ''0123456789ab'' \<and>
      Read (fst (Writes [(''0123456789'', Drains), (''ab'', Drains)] b')) = None)"
  using WriteHeader_content_encoding_never_auto_closes
    [of "set_Header [''Content-Encoding'' \<mapsto> [''gzip''], ''Content-Length'' \<mapsto> [''10'']]
          (new_delayedBody example_request)" 200 "\<lambda>s. []" Drains]
  by (simp add: run_defs)

subsection \<open>C5: without a usable Content-Length the body is empty\<close>

text \<open>
  C5. When the request is not HEAD, the status is below 300, there is no
  \<^verbatim>\<open>Content-Encoding\<close>, and the \<^verbatim>\<open>Content-Length\<close> header is absent, parses to zero or
  does not parse, the one \<^verbatim>\<open>WriteHeader\<close> call on a body whose pipe is still fresh
  assigns the status, logs the parse error when there is one and the header is not
  empty, closes the pipe's write end with \<^verbatim>\<open>EOF\<close> and only then closes \<^verbatim>\<open>headerDone\<close>.
  The body is empty: a read returns \<^verbatim>\<open>EOF\<close>, and every later write fails with
  \<^verbatim>\<open>ErrClosedPipe\<close> and leaves the pipe as it is.
\<close>

theorem WriteHeader_no_usable_length_empty_body:
  assumes "Method (request b) \<noteq> ''HEAD''" and "status < 300"
    and "Get (Header (response b)) ''Content-Encoding'' = []"
    and "Get (Header (response b)) ''Content-Length'' = [] \<or>
         fst (Atoi (Get (Header (response b)) ''Content-Length'')) = 0 \<or>
         snd (Atoi (Get (Header (response b)) ''Content-Length'')) \<noteq> None"
    and "\<not> headerDone b"
    and "pipe b = \<lparr>werr = None, rerr = None, delivered = []\<rparr>"
  shows "\<exists>b'. WriteHeader statusText status c b = Returns b' \<and>
           trace b' = trace b @ [SetStatus status] @
             (case snd (Atoi (Get (Header (response b)) ''Content-Length'')) of
                None \<Rightarrow> []
              | Some e \<Rightarrow> if Get (Header (response b)) ''Content-Length'' \<noteq> [] then [LogError e] else []) @
             [PipeCloseWithError EOF, CloseHeaderDone] \<and>
           headerDone b' \<and>
           pipe b' = \<lparr>werr = Some EOF, rerr = None, delivered = []\<rparr> \<and>
           Read b' = Some (0, EOF) \<and>
           (\<forall>ws. pipe (fst (Writes ws b')) = pipe b' \<and>
                 snd (Writes ws b') = map (\<lambda>w. (0, Some ErrClosedPipe)) ws)"
proof -
  obtain cl err where at: "Atoi (Get (Header (response b)) ''Content-Length'') = (cl, err)"
    by (cases "Atoi (Get (Header (response b)) ''Content-Length'')")
  have bad: "cl = 0 \<or> err \<noteq> None"
    using assms(4) at Atoi_empty by auto
  let ?logs = "case err of None \<Rightarrow> []
      | Some e \<Rightarrow> if Get (Header (response b)) ''Content-Length'' \<noteq> [] then [LogError e] else []"
  let ?b' = "b\<lparr>response := (response b)\<lparr>StatusCode := status\<rparr>,
               pipe := \<lparr>werr = Some EOF, rerr = None, delivered = []\<rparr>,
               headerDone := True,
               trace := trace b @ [SetStatus status] @ ?logs @ [PipeCloseWithError EOF, CloseHeaderDone]\<rparr>"
  have wh: "WriteHeader statusText status c b = Returns ?b'"
    using assms(1-3,5,6) at bad by (auto simp: header_defs split: option.splits)
  have pre: "Method (request ?b') \<noteq> ''HEAD''" "StatusCode (response ?b') < 300" "werr (pipe ?b') \<noteq> None"
    using assms by simp_all
  have "pipe (fst (Writes ws ?b')) = pipe ?b' \<and>
        snd (Writes ws ?b') = map (\<lambda>w. (0, Some ErrClosedPipe)) ws" for ws
    using Writes_closed [OF pre, of ws] by auto
  then show ?thesis using wh at by (simp add: Read_def pipe_Read_def)
qed

text \<open>No \<^verbatim>\<open>Content-Length\<close> at all, and the unparseable \<^verbatim>\<open>Content-Length: 1k\<close>.\<close>

theorem WriteHeader_no_usable_length_empty_body_witness:
  "Method (request (new_delayedBody example_request)) \<noteq> ''HEAD'' \<and> (200::int) < 300 \<and>
   Get (Header (response (new_delayedBody example_request))) ''Content-Encoding'' = [] \<and>
   Get (Header (response (new_delayedBody example_request))) ''Content-Length'' = [] \<and>
   \<not> headerDone (new_delayedBody example_request) \<and>
   pipe (new_delayedBody example_request) = \<lparr>werr = None, rerr = None, delivered = []\<rparr> \<and>
   (\<exists>b'. WriteHeader (\<lambda>s. []) 200 Drains (new_delayedBody example_request) = Returns b' \<and>
      trace b' = [SetStatus 200, PipeCloseWithError EOF, CloseHeaderDone] \<and>
      pipe b' = \<lparr>werr = Some EOF, rerr = None, delivered = []\<rparr> \<and> Read b' = Some (0, EOF) \<and>
      pipe (fst (Writes [(''0123456789'', Drains)] b')) = pipe b' \<and>
      snd (Writes [(''0123456789'', Drains)] b') = [(0, Some ErrClosedPipe)]) \<and>
   snd (Atoi ''1k'') = Some ErrSyntax \<and>
   (\<exists>b'. WriteHeader (\<lambda>s. []) 200 Drains
        (set_Header [''Content-Length'' \<mapsto> [''1k'']] (new_delayedBody example_request)) = Returns b' \<and>
      trace b' = [SetStatus 200, LogError ErrSyntax, PipeCloseWithError EOF, CloseHeaderDone] \<and>
      pipe b' = \<lparr>werr = Some EOF, rerr = None, delivered = []\<rparr>)"
  using WriteHeader_no_usable_length_empty_body
      [of "new_delayedBody example_request" 200 "\<lambda>s. []" Drains]
    WriteHeader_no_usable_length_empty_body
      [of "set_Header [''Content-Length'' \<mapsto> [''1k'']] (new_delayedBody example_request)" 200
        "\<lambda>s. []" Drains]
  by (simp add: run_defs)

subsection \<open>C7: the filter serves 404 or a delayed body over the joined path\<close>



subsection \<open>C8: one WriteHeader call sets the status, then signals once\<close>

text \<open>
  C8. A \<^verbatim>\<open>WriteHeader\<close> call that finds \<^verbatim>\<open>headerDone\<close> open returns, on every branch,
  with the status code assigned first and \<^verbatim>\<open>headerDone\<close> closed exactly once among the
  effects that follow the assignment.
\<close>

theorem WriteHeader_sets_status_then_signals_once:
  assumes "\<not> headerDone b"
  shows "\<exists>b' evs. WriteHeader statusText status c b = Returns b' \<and>
           trace b' = trace b @ SetStatus status # evs \<and>
           count_list evs CloseHeaderDone = 1 \<and>
           StatusCode (response b') = status \<and> headerDone b'"
  using assms
  by (auto simp: header_defs Let_def split: prod.splits option.splits)

theorem WriteHeader_sets_status_then_signals_once_witness:
  "\<not> headerDone example_body \<and>
   (\<exists>b'. WriteHeader (\<lambda>s. ''Not Found'') 404 Drains example_body = Returns b' \<and>
      trace b' = SetStatus 404 # [CloseHeaderDone, PipeWrite ''Not Found'' 9 None, PipeCloseWithError EOF] \<and>
      count_list [CloseHeaderDone, PipeWrite ''Not Found'' 9 None, PipeCloseWithError EOF]
        CloseHeaderDone = 1 \<and>
      StatusCode (response b') = 404 \<and> headerDone b')"
  using WriteHeader_sets_status_then_signals_once [of example_body "\<lambda>s. ''Not Found''" 404 Drains]
  by (simp add: run_defs)

subsection \<open>C9: Close can be repeated; reads after it fail with ErrClosedPipe\<close>

text \<open>
  C9, as amended. \<^verbatim>\<open>Close\<close> returns nil and cannot panic, also when called a second
  time or after the pipe's write end was closed with \<^verbatim>\<open>EOF\<close> (by the header phase or
  by the length count); in each case it leaves the pipe as a single \<^verbatim>\<open>Close\<close> does.
  A read after \<^verbatim>\<open>Close\<close> returns no bytes and \<^verbatim>\<open>ErrClosedPipe\<close>. A read returns \<^verbatim>\<open>EOF\<close>
  when only the write end has been closed with \<^verbatim>\<open>EOF\<close>.
\<close>

theorem Close_repeatable_reads_ErrClosedPipe:
  shows "snd (Close b) = None \<and> snd (Close (fst (Close b))) = None \<and>
         pipe (fst (Close (fst (Close b)))) = pipe (fst (Close b)) \<and>
         pipe (fst (Close (writer_CloseWithError EOF b))) = pipe (fst (Close b)) \<and>
         Read (fst (Close b)) = Some (0, ErrClosedPipe) \<and>
         Read (fst (Close (fst (Close b)))) = Some (0, ErrClosedPipe) \<and>
         Read (fst (Close (writer_CloseWithError EOF b))) = Some (0, ErrClosedPipe) \<and>
         (rerr (pipe b) = None \<and> (werr (pipe b) = None \<or> werr (pipe b) = Some EOF) \<longrightarrow>
            Read (writer_CloseWithError EOF b) = Some (0, EOF))"
  by (auto simp: Close_def writer_Close_def reader_Close_def writer_CloseWithError_def
      closeWrite_def closeRead_def Read_def pipe_Read_def split: option.splits)

theorem Close_repeatable_reads_ErrClosedPipe_witness:
  "rerr (pipe example_finalized) = None \<and> werr (pipe example_finalized) = None \<and>
   Read (writer_CloseWithError EOF example_finalized) = Some (0, EOF) \<and>
   snd (Close (writer_CloseWithError EOF example_finalized)) = None \<and>
   Read (fst (Close (writer_CloseWithError EOF example_finalized))) = Some (0, ErrClosedPipe) \<and>
   pipe (fst (Close (fst (Close example_finalized)))) = pipe (fst (Close example_finalized))"
  using Close_repeatable_reads_ErrClosedPipe [of example_finalized]
  by (simp add: run_defs)

text \<open>
  C9 as stated fails: after \<^verbatim>\<open>Close\<close>, alone or following the close by the length
  count, a read returns \<^verbatim>\<open>ErrClosedPipe\<close>, not \<^verbatim>\<open>EOF\<close>.
\<close>

theorem Read_after_Close_is_not_EOF:
  "Read (fst (Close example_finalized)) = Some (0, ErrClosedPipe) \<and>
   Read (fst (Close example_finalized)) \<noteq> Some (0, EOF) \<and>
   Read (fst (Write ''0123456789'' Drains example_finalized)) = Some (0, EOF) \<and>
   Read (fst (Close (fst (Write ''0123456789'' Drains example_finalized)))) = Some (0, ErrClosedPipe)"
  by (simp add: run_defs)

subsection \<open>C10: a negative Content-Length never closes the pipe\<close>

text \<open>
  C10. When the request is not HEAD, the status is below 300, there is no
  \<^verbatim>\<open>Content-Encoding\<close> and the \<^verbatim>\<open>Content-Length\<close> header parses to a negative \<open>cl\<close>, the
  one \<^verbatim>\<open>WriteHeader\<close> call on a body with an open pipe assigns the status, sets
  \<open>contentLength\<close> to \<open>cl\<close> and closes \<^verbatim>\<open>headerDone\<close>; it does not touch the pipe. As
  with a \<^verbatim>\<open>Content-Encoding\<close>, after any run of \<^verbatim>\<open>Write\<close> calls \<open>contentLength\<close> is
  still \<open>cl\<close>, no write has called \<^verbatim>\<open>CloseWithError\<close>, and the write end is open, with a
  read still blocking, exactly when no consumer tore the body down.
\<close>

theorem WriteHeader_negative_length_never_auto_closes:
  assumes "Method (request b) \<noteq> ''HEAD''" and "status < 300"
    and "Get (Header (response b)) ''Content-Encoding'' = []"
    and "Atoi (Get (Header (response b)) ''Content-Length'') = (cl, None)" and "cl < 0"
    and "\<not> headerDone b"
    and "werr (pipe b) = None" and "rerr (pipe b) = None"
  shows "\<exists>b'. WriteHeader statusText status c b = Returns b' \<and>
           contentLength b' = cl \<and>
           trace b' = trace b @ [SetStatus status, CloseHeaderDone] \<and>
           headerDone b' \<and> pipe b' = pipe b \<and>
           (\<forall>ws. contentLength (fst (Writes ws b')) = cl \<and>
                 count_list (trace (fst (Writes ws b'))) (PipeCloseWithError EOF) =
                   count_list (trace b') (PipeCloseWithError EOF) \<and>
                 (werr (pipe (fst (Writes ws b'))) = None) = list_all (\<lambda>w. snd w = Drains) ws \<and>
                 (Read (fst (Writes ws b')) = None) = list_all (\<lambda>w. snd w = Drains) ws)"
proof -
  let ?b' = "b\<lparr>response := (response b)\<lparr>StatusCode := status\<rparr>,
               contentLength := cl, headerDone := True,
               trace := trace b @ [SetStatus status, CloseHeaderDone]\<rparr>"
  have wh: "WriteHeader statusText status c b = Returns ?b'"
    using assms(1-6) by (auto simp: header_defs)
  have pre: "Method (request ?b') \<noteq> ''HEAD''" "StatusCode (response ?b') < 300" "contentLength ?b' < 0"
    "werr (pipe ?b') = None" "rerr (pipe ?b') = None"
    using assms by simp_all
  show ?thesis using wh unknown_length_Writes [OF pre] by simp
qed

theorem WriteHeader_negative_length_never_auto_closes_witness:
  "Method (request (set_Header [''Content-Length'' \<mapsto> [''-5'']] (new_delayedBody example_request))) \<noteq> ''HEAD'' \<and>
   (200::int) < 300 \<and>
   Get (Header (response (set_Header [''Content-Length'' \<mapsto> [''-5'']] (new_delayedBody example_request))))
     ''Content-Encoding'' = [] \<and>
   Atoi (Get (Header (response (set_Header [''Content-Length'' \<mapsto> [''-5'']] (new_delayedBody example_request))))
     ''Content-Length'') = (- 5, None) \<and> (- 5 :: int) < 0 \<and>
   (\<exists>b'. WriteHeader (\<lambda>s. []) 200 Drains
        (set_Header [''Content-Length'' \<mapsto> [''-5'']] (new_delayedBody example_request)) = Returns b' \<and>
      contentLength b' = - 5 \<and> trace b' = [SetStatus 200, CloseHeaderDone] \<and>
      pipe b' = \<lparr>werr = None, rerr = None, delivered = []\<rparr> \<and>
      count_list (trace (fst (Writes [(''0123456789'', Drains)] b'))) (PipeCloseWithError EOF) = 0 \<and>
      werr (pipe (fst (Writes [(''0123456789'', Drains)] b'))) = None \<and>
      Read (fst (Writes [(''0123456789'', Drains)] b')) = None)"
  using WriteHeader_negative_length_never_auto_closes
    [of "set_Header [''Content-Length'' \<mapsto> [''-5'']] (new_delayedBody example_request)" 200 "- 5"
      "\<lambda>s. []" Drains]
  by (simp add: run_defs)

end
